theory Spec2Isabelle
  imports Complex_Main
begin

section \<open>Python values shared by both operators\<close>

text \<open>
  A Python \<open>str\<close> is a sequence of Unicode code points and \<open>len\<close> counts code points,
  so a string is a list of code points. ASCII literals of the source are written
  \<open>str ''...''\<close>.
\<close>

type_synonym pystr = "nat list"

abbreviation str :: "string \<Rightarrow> pystr" where
  "str s \<equiv> map of_char s"

text \<open>The exceptions the modelled code can raise; \<open>ExternalFailure\<close> is any exception
  raised inside an external collaborator (file system, model inference, similarity scorer).\<close>

datatype error = ValueError | KeyError | TypeError | IndexError | JSONDecodeError | ExternalFailure

section \<open>The average line length filter\<close>

subsection \<open>\<open>str.splitlines\<close>\<close>

text \<open>
  The line boundaries of Python's \<open>str.splitlines()\<close>: LF, VT, FF, CR, FS, GS, RS, NEL,
  LINE SEPARATOR and PARAGRAPH SEPARATOR; CR LF counts as one boundary.
\<close>

definition is_linebreak :: "nat \<Rightarrow> bool" where
  "is_linebreak c \<longleftrightarrow> c \<in> set [10, 11, 12, 13, 28, 29, 30, 133, 8232, 8233]"

text \<open>
  \<open>splitlines_from cur s\<close> scans \<open>s\<close> with \<open>cur\<close> the part of the current line already
  read. A line is emitted at each boundary; the rest after the last boundary is a line
  only when it is not empty.
\<close>

fun splitlines_from :: "pystr \<Rightarrow> pystr \<Rightarrow> pystr list" where
  "splitlines_from cur [] = (if cur = [] then [] else [cur])"
| "splitlines_from cur (c # cs) =
     (if is_linebreak c then
        cur # (case cs of
                 [] \<Rightarrow> splitlines_from [] cs
               | d # ds \<Rightarrow> if c = 13 \<and> d = 10 then splitlines_from [] ds
                           else splitlines_from [] cs)
      else splitlines_from (cur @ [c]) cs)"

definition splitlines :: "pystr \<Rightarrow> pystr list" where
  "splitlines s = splitlines_from [] s"

subsection \<open>Samples, stats and context\<close>

text \<open>
  A Stats record maps a metric name to a number. Python's \<open>int / int\<close> is the float
  nearest to the exact quotient; the model keeps the exact quotient, a rational, and so
  the stored \<open>0.0\<close> is the rational \<open>0\<close>. A Context record maps the name of an
  intermediate variable to the line sequence stored under it.
\<close>

type_synonym stat = "pystr \<rightharpoonup> rat"
type_synonym ctx = "pystr \<rightharpoonup> pystr list"

text \<open>Modelled from the spec: the constants \<open>StatsKeys.avg_line_length\<close> and
  \<open>InterVars.lines\<close> of \<open>data_juicer.utils.constant\<close>, the names of the metric and of
  the shared line-split.\<close>

definition avg_line_length :: pystr where
  "avg_line_length = str ''avg_line_length''"

definition context_key :: pystr where
  "context_key = str ''__dj__lines''"

text \<open>
  A batch is a dict of columns: \<open>samples[self.text_key]\<close>, \<open>samples[Fields.stats]\<close> and
  \<open>samples[Fields.context]\<close>. The context column exists only when context sharing is
  set up, hence the option.
\<close>

record samples =
  text_col :: "pystr list"
  stats_col :: "stat list"
  context_col :: "ctx list option"

record filter_cfg =
  min_len :: int
  max_len :: int

subsection \<open>\<open>compute_stats\<close>\<close>

text \<open>
  The line sequence of sample \<open>i\<close>: the cached one when \<open>context\<close> is set and the
  Context record has it, otherwise the split of the text, which is then cached when
  \<open>context\<close> is set. Reading a missing column raises KeyError, reading past the end of
  a column raises IndexError.
\<close>

definition get_lines :: "bool \<Rightarrow> samples \<Rightarrow> nat \<Rightarrow> error + (pystr list \<times> samples)" where
  "get_lines context s i =
     (if context then
        (case context_col s of
           None \<Rightarrow> Inl KeyError
         | Some cs \<Rightarrow>
             if i < length cs then
               (case (cs ! i) context_key of
                  Some lines \<Rightarrow> Inr (lines, s)
                | None \<Rightarrow>
                    if i < length (text_col s) then
                      (let lines = splitlines (text_col s ! i)
                       in Inr (lines,
                               s\<lparr>context_col := Some (cs[i := (cs ! i)(context_key \<mapsto> lines)])\<rparr>))
                    else Inl IndexError)
             else Inl IndexError)
      else if i < length (text_col s) then Inr (splitlines (text_col s ! i), s)
      else Inl IndexError)"

text \<open>One iteration of the loop over \<open>enumerate(samples_stats)\<close>. The text is read for
  its length only when the line sequence is not empty.\<close>

definition compute_one :: "bool \<Rightarrow> samples \<Rightarrow> nat \<Rightarrow> error + samples" where
  "compute_one context s i =
     (if avg_line_length \<in> dom (stats_col s ! i) then Inr s
      else
        (case get_lines context s i of
           Inl e \<Rightarrow> Inl e
         | Inr (lines, s') \<Rightarrow>
             if length lines \<noteq> 0 then
               (if i < length (text_col s') then
                  Inr (s'\<lparr>stats_col := (stats_col s')[i := (stats_col s' ! i)
                         (avg_line_length \<mapsto>
                            of_nat (length (text_col s' ! i)) / of_nat (length lines))]\<rparr>)
                else Inl IndexError)
             else
               Inr (s'\<lparr>stats_col := (stats_col s')[i := (stats_col s' ! i)
                      (avg_line_length \<mapsto> 0)]\<rparr>)))"

fun compute_loop :: "bool \<Rightarrow> samples \<Rightarrow> nat list \<Rightarrow> error + samples" where
  "compute_loop context s [] = Inr s"
| "compute_loop context s (i # is) =
     (case compute_one context s i of
        Inl e \<Rightarrow> Inl e
      | Inr s' \<Rightarrow> compute_loop context s' is)"

definition compute_stats :: "bool \<Rightarrow> samples \<Rightarrow> error + samples" where
  "compute_stats context s = compute_loop context s [0..<length (stats_col s)]"

subsection \<open>\<open>process\<close>\<close>

text \<open>\<open>samples[Fields.stats]\<close> is a list of Stats records in the batched mode and one
  Stats record in the single-sample mode; the result is a list of booleans or one.\<close>

datatype stats_field = StatsList "stat list" | StatsOne stat

datatype decision = Bools "bool list" | OneBool bool

fun process_loop :: "filter_cfg \<Rightarrow> bool list \<Rightarrow> stat list \<Rightarrow> error + bool list" where
  "process_loop cfg bool_results [] = Inr bool_results"
| "process_loop cfg bool_results (stat # rest) =
     (case stat avg_line_length of
        None \<Rightarrow> Inl KeyError
      | Some v \<Rightarrow>
          if of_int (min_len cfg) \<le> v \<and> v \<le> of_int (max_len cfg)
          then process_loop cfg (bool_results @ [True]) rest
          else process_loop cfg (bool_results @ [False]) rest)"

fun process :: "filter_cfg \<Rightarrow> stats_field \<Rightarrow> error + decision" where
  "process cfg (StatsList sts) =
     (case process_loop cfg [] sts of
        Inl e \<Rightarrow> Inl e
      | Inr bool_results \<Rightarrow> Inr (Bools bool_results))"
| "process cfg (StatsOne st) =
     (case st avg_line_length of
        None \<Rightarrow> Inl KeyError
      | Some v \<Rightarrow>
          if of_int (min_len cfg) \<le> v \<and> v \<le> of_int (max_len cfg)
          then Inr (OneBool True)
          else Inr (OneBool False))"

section \<open>The instruction generation mapper\<close>

subsection \<open>Parsed JSON values\<close>

text \<open>
  What \<open>json.loads\<close> returns: \<open>None\<close>, a bool, a number, a str, a list or a dict. A dict is
  the list of its items, with distinct keys. The parser itself is the standard library's
  and is a parameter \<open>json_loads\<close> of the functions that call it, as is the serialiser
  \<open>json_dumps\<close>, whose first argument is \<open>ensure_ascii\<close>.
\<close>

datatype json = JNull | JBool bool | JNum rat | JStr pystr | JArr "json list"
  | JObj "(pystr \<times> json) list"

text \<open>\<open>obj[key]\<close> for a str key: only a dict can be subscripted by a str, and a missing
  key raises KeyError.\<close>

fun getitem :: "json \<Rightarrow> pystr \<Rightarrow> error + json" where
  "getitem (JObj items) key =
     (case map_of items key of None \<Rightarrow> Inl KeyError | Some v \<Rightarrow> Inr v)"
| "getitem _ key = Inl TypeError"

text \<open>The elements a \<open>for\<close> loop visits: the elements of a list, the keys of a dict, the
  characters of a str; any other value is not iterable.\<close>

fun iterate :: "json \<Rightarrow> error + json list" where
  "iterate (JArr xs) = Inr xs"
| "iterate (JObj items) = Inr (map (\<lambda>(k, v). JStr k) items)"
| "iterate (JStr s) = Inr (map (\<lambda>c. JStr [c]) s)"
| "iterate _ = Inl TypeError"

subsection \<open>\<open>str.strip\<close>\<close>

text \<open>The code points for which \<open>str.isspace\<close> holds.\<close>

definition is_space :: "nat \<Rightarrow> bool" where
  "is_space c \<longleftrightarrow>
     (9 \<le> c \<and> c \<le> 13) \<or> (28 \<le> c \<and> c \<le> 32) \<or> c = 133 \<or> c = 160 \<or> c = 5760 \<or>
     (8192 \<le> c \<and> c \<le> 8202) \<or> c = 8232 \<or> c = 8233 \<or> c = 8239 \<or> c = 8287 \<or> c = 12288"

definition strip :: "pystr \<Rightarrow> pystr" where
  "strip s = rev (dropWhile is_space (rev (dropWhile is_space s)))"

subsection \<open>Seed corpus loader\<close>

record parse_state =
  user_input :: json
  assistant_output :: json
  qa_pairs :: "(json \<times> json) list"

fun chatml_loop :: "parse_state \<Rightarrow> json list \<Rightarrow> error + parse_state" where
  "chatml_loop st [] = Inr st"
| "chatml_loop st (message # rest) =
     (case getitem message (str ''role'') of
        Inl e \<Rightarrow> Inl e
      | Inr role \<Rightarrow>
          (case getitem message (str ''content'') of
             Inl e \<Rightarrow> Inl e
           | Inr content \<Rightarrow>
               if role = JStr (str ''user'') then
                 chatml_loop (st\<lparr>user_input := content\<rparr>) rest
               else if role = JStr (str ''assistant'') then
                 chatml_loop (st\<lparr>assistant_output := content,
                                 qa_pairs := qa_pairs st @ [(user_input st, content)]\<rparr>) rest
               else chatml_loop st rest))"

definition parse_chatml_str ::
  "(pystr \<Rightarrow> error + json) \<Rightarrow> pystr \<Rightarrow> error + (json \<times> json) list" where
  "parse_chatml_str json_loads input_str =
     (case json_loads input_str of
        Inl e \<Rightarrow> Inl e
      | Inr data \<Rightarrow>
          (case getitem data (str ''messages'') of
             Inl e \<Rightarrow> Inl e
           | Inr messages \<Rightarrow>
               (case iterate messages of
                  Inl e \<Rightarrow> Inl e
                | Inr ms \<Rightarrow>
                    (case chatml_loop
                            \<lparr>user_input = JNull, assistant_output = JNull, qa_pairs = []\<rparr> ms of
                       Inl e \<Rightarrow> Inl e
                     | Inr st \<Rightarrow> Inr (qa_pairs st)))))"

fun load_loop ::
  "(pystr \<Rightarrow> error + json) \<Rightarrow> (json \<times> json) list list \<Rightarrow> pystr list \<Rightarrow>
     error + (json \<times> json) list list" where
  "load_loop json_loads qa_samples [] = Inr qa_samples"
| "load_loop json_loads qa_samples (line # rest) =
     (case parse_chatml_str json_loads (strip line) of
        Inl e \<Rightarrow> Inl e
      | Inr pairs \<Rightarrow>
          if length pairs > 0 then load_loop json_loads (qa_samples @ [pairs]) rest
          else load_loop json_loads qa_samples rest)"

text \<open>\<open>readlines\<close> is \<open>open(seed_file).readlines()\<close>: the lines of the file, each with its
  line end, or the error of opening or reading it.\<close>

definition load_seed_qa_samples ::
  "(pystr \<Rightarrow> error + pystr list) \<Rightarrow> (pystr \<Rightarrow> error + json) \<Rightarrow> pystr \<Rightarrow>
     error + (json \<times> json) list list" where
  "load_seed_qa_samples readlines json_loads seed_file =
     (case readlines seed_file of
        Inl e \<Rightarrow> Inl e
      | Inr lines \<Rightarrow> load_loop json_loads [] lines)"

subsection \<open>Construction\<close>

text \<open>\<open>sep.join(items)\<close>: every item must be a str.\<close>

fun join :: "pystr \<Rightarrow> json list \<Rightarrow> error + pystr" where
  "join sep [] = Inr []"
| "join sep [JStr s] = Inr s"
| "join sep (JStr s # rest) =
     (case join sep rest of Inl e \<Rightarrow> Inl e | Inr t \<Rightarrow> Inr (s @ sep @ t))"
| "join sep (_ # rest) = Inl TypeError"

fun join_pairs :: "(json \<times> json) list \<Rightarrow> error + json list" where
  "join_pairs [] = Inr []"
| "join_pairs ((q, a) # rest) =
     (case join [10] [q, a] of
        Inl e \<Rightarrow> Inl e
      | Inr s \<Rightarrow> (case join_pairs rest of Inl e \<Rightarrow> Inl e | Inr ss \<Rightarrow> Inr (JStr s # ss)))"

fun reference_samples_of :: "(json \<times> json) list list \<Rightarrow> error + pystr list" where
  "reference_samples_of [] = Inr []"
| "reference_samples_of (pairs # rest) =
     (case join_pairs pairs of
        Inl e \<Rightarrow> Inl e
      | Inr ss \<Rightarrow>
          (case join [10] ss of
             Inl e \<Rightarrow> Inl e
           | Inr s \<Rightarrow>
               (case reference_samples_of rest of
                  Inl e \<Rightarrow> Inl e
                | Inr refs \<Rightarrow> Inr ((s @ [10]) # refs))))"

record 'k mapper =
  text_key :: pystr
  model_key :: 'k
  instruct_num :: int
  similarity_threshold :: rat
  seed_qa_samples :: "(json \<times> json) list list"
  reference_samples :: "pystr list"

text \<open>
  \<open>__init__\<close>, for the arguments that reach the seed corpus. \<open>prepare_model\<close> is the
  outcome of loading the model (the CUDA check and \<open>prepare_model\<close> of the source), which
  runs between the check of \<open>seed_file\<close> and the loading of the seed file.
\<close>

definition init_mapper ::
  "(error + 'k) \<Rightarrow> (pystr \<Rightarrow> error + pystr list) \<Rightarrow> (pystr \<Rightarrow> error + json) \<Rightarrow>
     pystr \<Rightarrow> pystr option \<Rightarrow> int \<Rightarrow> rat \<Rightarrow> error + 'k mapper" where
  "init_mapper prepare_model readlines json_loads tkey seed_file n threshold =
     (case seed_file of
        None \<Rightarrow> Inl ValueError
      | Some path \<Rightarrow>
          if path = [] then Inl ValueError
          else
            (case prepare_model of
               Inl e \<Rightarrow> Inl e
             | Inr key \<Rightarrow>
                 (case load_seed_qa_samples readlines json_loads path of
                    Inl e \<Rightarrow> Inl e
                  | Inr samples \<Rightarrow>
                      if length samples = 0 then Inl ValueError
                      else
                        (case reference_samples_of samples of
                           Inl e \<Rightarrow> Inl e
                         | Inr refs \<Rightarrow>
                             Inr \<lparr>text_key = tkey, model_key = key,
                                  instruct_num = n,
                                  similarity_threshold = threshold,
                                  seed_qa_samples = samples,
                                  reference_samples = refs\<rparr>))))"

subsection \<open>Response parsing, similarity and \<open>process\<close>\<close>

text \<open>\<open>findall\<close> is \<open>re.findall(self.qa_extraction_pattern, response_str, re.DOTALL)\<close>
  for a pattern with two groups: the (question, answer) matches in order.\<close>

fun parse_response_loop ::
  "(pystr \<times> pystr) list \<Rightarrow> pystr \<Rightarrow> (pystr \<times> pystr) list \<Rightarrow> (pystr \<times> pystr) list \<times> pystr" where
  "parse_response_loop out_qa_pairs response_str [] = (out_qa_pairs, response_str)"
| "parse_response_loop out_qa_pairs response_str ((question, answer) # rest) =
     parse_response_loop
       (out_qa_pairs @ [(strip question, strip answer)])
       (response_str @ strip question @ [10] @ strip answer @ [10])
       rest"

definition parse_response ::
  "(pystr \<Rightarrow> (pystr \<times> pystr) list) \<Rightarrow> pystr \<Rightarrow> (pystr \<times> pystr) list \<times> pystr" where
  "parse_response findall response_str = parse_response_loop [] [] (findall response_str)"

text \<open>\<open>rouge\<close> is \<open>Rouge().get_scores(candidate, reference)[0]['rouge-l']['f']\<close>.\<close>

fun max_rouge_loop ::
  "(pystr \<Rightarrow> pystr \<Rightarrow> error + rat) \<Rightarrow> pystr \<Rightarrow> rat \<Rightarrow> pystr list \<Rightarrow> error + rat" where
  "max_rouge_loop rouge reference max_score [] = Inr max_score"
| "max_rouge_loop rouge reference max_score (candidate # rest) =
     (case rouge candidate reference of
        Inl e \<Rightarrow> Inl e
      | Inr rouge_l_score \<Rightarrow>
          if rouge_l_score > max_score
          then max_rouge_loop rouge reference rouge_l_score rest
          else max_rouge_loop rouge reference max_score rest)"

definition max_rouge_l_score ::
  "(pystr \<Rightarrow> pystr \<Rightarrow> error + rat) \<Rightarrow> pystr \<Rightarrow> pystr list \<Rightarrow> error + rat" where
  "max_rouge_l_score rouge reference candidates = max_rouge_loop rouge reference 0 candidates"

fun append_messages :: "json list \<Rightarrow> (pystr \<times> pystr) list \<Rightarrow> json list" where
  "append_messages message_list [] = message_list"
| "append_messages message_list ((question, answer) # rest) =
     append_messages
       (message_list @
          [JObj [(str ''role'', JStr (str ''user'')), (str ''content'', JStr question)],
           JObj [(str ''role'', JStr (str ''assistant'')), (str ''content'', JStr answer)]])
       rest"

text \<open>
  \<open>process\<close> of the mapper. \<open>generate\<close> is the outcome of drawing the exemplars,
  building the prompt and calling the model: the raw response text, or the error raised
  on the way.
\<close>

definition process_mapper ::
  "('k mapper \<Rightarrow> error + pystr) \<Rightarrow> (pystr \<Rightarrow> (pystr \<times> pystr) list) \<Rightarrow>
     (pystr \<Rightarrow> pystr \<Rightarrow> error + rat) \<Rightarrow> (bool \<Rightarrow> json \<Rightarrow> pystr) \<Rightarrow> 'k mapper \<Rightarrow>
     error + (pystr \<rightharpoonup> pystr)" where
  "process_mapper generate findall rouge json_dumps m =
     (case generate m of
        Inl e \<Rightarrow> Inl e
      | Inr raw \<Rightarrow>
          (case parse_response findall raw of
             (out_qa_pairs, response_str) \<Rightarrow>
               if response_str = [] then
                 Inr [text_key m \<mapsto> json_dumps True (JObj [(str ''messages'', JArr [])])]
               else
                 (case max_rouge_l_score rouge response_str (reference_samples m) of
                    Inl e \<Rightarrow> Inl e
                  | Inr sim_score \<Rightarrow>
                      Inr [text_key m \<mapsto>
                             json_dumps False
                               (JObj [(str ''messages'',
                                       JArr (if sim_score \<le> similarity_threshold m
                                             then append_messages [] out_qa_pairs
                                             else []))])])))"

section \<open>Notions used in the statements\<close>

subsection \<open>The filter\<close>

text \<open>The line sequence already stored for sample \<open>i\<close>, if context sharing is on and
  the Context record of the sample has one.\<close>

definition cached_lines :: "bool \<Rightarrow> samples \<Rightarrow> nat \<Rightarrow> pystr list option" where
  "cached_lines context s i =
     (if context then
        (case context_col s of
           None \<Rightarrow> None
         | Some cs \<Rightarrow> if i < length cs then (cs ! i) context_key else None)
      else None)"

text \<open>The line sequence of sample \<open>i\<close>: the cached one, or else the split of its text.\<close>

definition lines_of :: "bool \<Rightarrow> samples \<Rightarrow> nat \<Rightarrow> pystr list" where
  "lines_of context s i =
     (case cached_lines context s i of
        Some lines \<Rightarrow> lines
      | None \<Rightarrow> splitlines (text_col s ! i))"

text \<open>A batch whose columns have one entry per sample; the context column is needed only
  when context sharing is on.\<close>

definition aligned :: "bool \<Rightarrow> samples \<Rightarrow> bool" where
  "aligned context s \<longleftrightarrow>
     length (text_col s) = length (stats_col s) \<and>
     (context \<longrightarrow> (case context_col s of None \<Rightarrow> False
                    | Some cs \<Rightarrow> length cs = length (stats_col s)))"

text \<open>
  The Context record is a cache: a line sequence stored for a sample is the split of that
  sample's text. \<open>compute_stats\<close> is the only writer of the entry in this operator, and
  what it writes is \<open>samples_list[i].splitlines()\<close>.
\<close>

definition coherent :: "bool \<Rightarrow> samples \<Rightarrow> bool" where
  "coherent context s \<longleftrightarrow>
     (\<forall>i<length (stats_col s).
        case cached_lines context s i of
          None \<Rightarrow> True
        | Some lines \<Rightarrow> lines = splitlines (text_col s ! i))"

subsection \<open>The seed parser\<close>

text \<open>A message \<open>{'role': r, 'content': c}\<close>, and the message sequence of a conversation
  made of (question, answer) turns.\<close>

definition message :: "string \<Rightarrow> json \<Rightarrow> json" where
  "message r c = JObj [(str ''role'', JStr (str r)), (str ''content'', c)]"

definition alternating :: "(json \<times> json) list \<Rightarrow> json list" where
  "alternating qas = concat (map (\<lambda>(q, a). [message ''user'' q, message ''assistant'' a]) qas)"

definition is_role :: "string \<Rightarrow> json \<Rightarrow> bool" where
  "is_role r msg \<longleftrightarrow> getitem msg (str ''role'') = Inr (JStr (str r))"

definition content_of :: "json \<Rightarrow> json" where
  "content_of msg = (case getitem msg (str ''content'') of Inl e \<Rightarrow> JNull | Inr c \<Rightarrow> c)"

text \<open>The content of the last user message of \<open>ms\<close>, and \<open>u0\<close> when \<open>ms\<close> has none.\<close>

definition last_user :: "json \<Rightarrow> json list \<Rightarrow> json" where
  "last_user u0 ms =
     (case filter (is_role ''user'') ms of [] \<Rightarrow> u0 | m # us \<Rightarrow> content_of (last (m # us)))"

text \<open>
  The pairs a conversation should give, read off the message sequence by position: one
  pair for each assistant message, in order, made of the content of the last user message
  before it and of its own content.
\<close>

definition expected_from :: "json \<Rightarrow> json list \<Rightarrow> (json \<times> json) list" where
  "expected_from u0 ms =
     [(last_user u0 (take i ms), content_of (ms ! i)).
        i \<leftarrow> [0..<length ms], is_role ''assistant'' (ms ! i)]"

section \<open>Example inputs\<close>

subsection \<open>Batches and filter configurations\<close>

text \<open>Three samples with context sharing on; the Context record of the third already
  holds the two lines of its text.\<close>

definition batch1 :: samples where
  "batch1 = \<lparr>text_col = [str ''ab'' @ [10] @ str ''cd'', [], str ''x'' @ [13, 10] @ str ''yz'' @ [10]],
             stats_col = [Map.empty, Map.empty, Map.empty],
             context_col = Some [Map.empty, Map.empty,
                                 [context_key \<mapsto> [str ''x'', str ''yz'']]]\<rparr>"

definition batch2 :: samples where
  "batch2 = \<lparr>text_col = [str ''ab'' @ [10] @ str ''cd'', str ''xyz''],
             stats_col = [Map.empty, [avg_line_length \<mapsto> 99]],
             context_col = None\<rparr>"

definition batch2_done :: samples where
  "batch2_done = \<lparr>text_col = [str ''ab'' @ [10] @ str ''cd'', str ''xyz''],
                  stats_col = [[avg_line_length \<mapsto> 5 / 2], [avg_line_length \<mapsto> 99]],
                  context_col = None\<rparr>"

text \<open>The default configuration: \<open>min_len = 10\<close>, \<open>max_len = sys.maxsize\<close>.\<close>

definition cfg_default :: filter_cfg where
  "cfg_default = \<lparr>min_len = 10, max_len = 9223372036854775807\<rparr>"

definition cfg_narrow :: filter_cfg where
  "cfg_narrow = \<lparr>min_len = 10, max_len = 100\<rparr>"

definition cfg_wide :: filter_cfg where
  "cfg_wide = \<lparr>min_len = 5, max_len = 200\<rparr>"

definition stats3 :: "stat list" where
  "stats3 = [[avg_line_length \<mapsto> 10], [avg_line_length \<mapsto> 19 / 2], [avg_line_length \<mapsto> 80]]"

subsection \<open>Seed records and collaborators\<close>

definition record1 :: json where
  "record1 = JObj [(str ''messages'',
     JArr [message ''user'' (JStr (str ''q0'')), message ''user'' (JStr (str ''q1'')),
           message ''assistant'' (JStr (str ''a1'')), message ''system'' (JStr (str ''s'')),
           message ''assistant'' (JStr (str ''a2''))])]"

definition record2 :: json where
  "record2 = JObj [(str ''messages'', JArr [message ''assistant'' (JStr (str ''hi''))])]"

definition record3 :: json where
  "record3 = JObj [(str ''messages'', JArr [message ''user'' (JStr (str ''only''))])]"

definition record4 :: json where
  "record4 = JObj [(str ''messages'',
     JArr (alternating [(JStr (str ''q1''), JStr (str ''a1'')),
                        (JStr (str ''q2''), JStr (str ''a2''))]))]"

text \<open>A stand-in for \<open>json.loads\<close> that knows the texts of a table of documents and
  rejects every other text, the empty one included.\<close>

definition loads_table :: "(pystr \<times> json) list \<Rightarrow> pystr \<Rightarrow> error + json" where
  "loads_table table s =
     (case map_of table s of None \<Rightarrow> Inl JSONDecodeError | Some doc \<Rightarrow> Inr doc)"

definition seed_table :: "(pystr \<times> json) list" where
  "seed_table = [(str ''record1'', record1), (str ''record2'', record2),
                 (str ''record3'', record3), (str ''record4'', record4)]"

definition seed_lines :: "pystr list" where
  "seed_lines = [str ''record3'' @ [10], str ''record1'' @ [10]]"

definition seed_lines_empty :: "pystr list" where
  "seed_lines_empty = [str ''record3'' @ [10]]"

definition seed_lines_blank :: "pystr list" where
  "seed_lines_blank = [str ''record1'' @ [10], [10]]"

text \<open>A stand-in for \<open>json.dumps\<close> on documents whose strings need no escaping.\<close>

fun intercalate :: "pystr \<Rightarrow> pystr list \<Rightarrow> pystr" where
  "intercalate sep [] = []"
| "intercalate sep [s] = s"
| "intercalate sep (s # rest) = s @ sep @ intercalate sep rest"

fun dumps_plain :: "json \<Rightarrow> pystr" where
  "dumps_plain JNull = str ''null''"
| "dumps_plain (JBool b) = (if b then str ''true'' else str ''false'')"
| "dumps_plain (JNum x) = str ''0''"
| "dumps_plain (JStr s) = [34] @ s @ [34]"
| "dumps_plain (JArr xs) = str ''['' @ intercalate (str '', '') (map dumps_plain xs) @ str '']''"
| "dumps_plain (JObj items) =
     str ''{'' @ intercalate (str '', '')
        (map (\<lambda>(k, v). [34] @ k @ [34] @ str '': '' @ dumps_plain v) items) @ str ''}''"

text \<open>The response of the end-to-end scenario: the question marker, a question, the
  answer marker and an answer, each on a line of its own; and the matches of the default
  extraction pattern on it.\<close>

definition raw1 :: pystr where
  "raw1 = [12304, 38382, 39064, 12305, 10] @ str ''What is the capital of France?'' @
          [10, 12304, 22238, 31572, 12305, 10] @ str ''Paris'' @ [10]"

definition findall1 :: "pystr \<Rightarrow> (pystr \<times> pystr) list" where
  "findall1 s =
     (if s = raw1 then [(str ''What is the capital of France?'', str ''Paris'')] else [])"

definition mapper1 :: "unit mapper" where
  "mapper1 = \<lparr>text_key = str ''text'', model_key = (), instruct_num = 1,
              similarity_threshold = 7 / 10,
              seed_qa_samples = [[(JStr (str ''What is 2+2?''), JStr (str ''4''))]],
              reference_samples = [str ''What is 2+2?'' @ [10] @ str ''4'' @ [10]]\<rparr>"

text \<open>The text scored in the scenario, a second mapper whose corpus holds that very
  text as its second entry, and a stand-in for the Rouge scorer: it scores an entry of the
  corpus against the scenario's text only, the identical entry at 1 and any other at
  \<open>1 / 5\<close>.\<close>

definition generated1 :: pystr where
  "generated1 = str ''What is the capital of France?'' @ [10] @ str ''Paris'' @ [10]"

definition mapper2 :: "unit mapper" where
  "mapper2 = \<lparr>text_key = str ''text'', model_key = (), instruct_num = 1,
              similarity_threshold = 7 / 10,
              seed_qa_samples =
                [[(JStr (str ''What is 2+2?''), JStr (str ''4''))],
                 [(JStr (str ''What is the capital of France?''), JStr (str ''Paris''))]],
              reference_samples =
                [str ''What is 2+2?'' @ [10] @ str ''4'' @ [10], generated1]\<rparr>"

definition score1 :: "pystr \<Rightarrow> rat" where
  "score1 c = (if c = generated1 then 1 else 1 / 5)"

definition rouge1 :: "pystr \<Rightarrow> pystr \<Rightarrow> error + rat" where
  "rouge1 c r = (if r = generated1 then Inr (score1 c) else Inl ExternalFailure)"

section \<open>The filter: what \<open>compute_stats\<close> stores\<close>

subsection \<open>Line splitting\<close>

lemma splitlines_from_Nil: "splitlines_from cur s = [] \<longleftrightarrow> cur = [] \<and> s = []"
  by (induction cur s rule: splitlines_from.induct) (auto split: list.splits)

lemma splitlines_Nil: "splitlines s = [] \<longleftrightarrow> s = []"
  by (simp add: splitlines_def splitlines_from_Nil)

subsection \<open>One iteration\<close>

lemmas compute_one_defs = compute_one_def get_lines_def Let_def
lemmas compute_one_splits = if_splits sum.splits option.splits prod.splits

lemma compute_one_frame:
  "compute_one c s i = Inr s' \<Longrightarrow>
     length (stats_col s') = length (stats_col s) \<and> text_col s' = text_col s"
  by (auto simp: compute_one_defs split: compute_one_splits)

lemma compute_one_other:
  "compute_one c s i = Inr s' \<Longrightarrow> j \<noteq> i \<Longrightarrow> stats_col s' ! j = stats_col s ! j"
  by (auto simp: compute_one_defs split: compute_one_splits)

lemma compute_one_skip:
  "avg_line_length \<in> dom (stats_col s ! i) \<Longrightarrow> compute_one c s i = Inr s"
  by (simp add: compute_one_def)

lemma compute_one_present:
  "compute_one c s i = Inr s' \<Longrightarrow> avg_line_length \<in> dom (stats_col s ! j) \<Longrightarrow>
     stats_col s' ! j = stats_col s ! j"
  by (cases "j = i") (auto simp: compute_one_skip compute_one_other)

lemma compute_one_cached_other:
  "compute_one c s i = Inr s' \<Longrightarrow> j \<noteq> i \<Longrightarrow> cached_lines c s' j = cached_lines c s j"
  by (auto simp: compute_one_defs cached_lines_def split: compute_one_splits)

lemma compute_one_aligned:
  "compute_one c s i = Inr s' \<Longrightarrow> aligned c s \<Longrightarrow> aligned c s'"
  by (auto simp: compute_one_defs aligned_def split: compute_one_splits)

lemma compute_one_total:
  "aligned c s \<Longrightarrow> i < length (stats_col s) \<Longrightarrow> \<exists>s'. compute_one c s i = Inr s'"
  by (auto simp: compute_one_defs aligned_def split: compute_one_splits)

lemma compute_one_stores:
  "compute_one c s i = Inr s' \<Longrightarrow> i < length (stats_col s) \<Longrightarrow>
     avg_line_length \<in> dom (stats_col s' ! i)"
  by (auto simp: compute_one_defs split: compute_one_splits)

lemma compute_one_value:
  assumes "compute_one c s i = Inr s'" "i < length (stats_col s)"
    "avg_line_length \<notin> dom (stats_col s ! i)"
  shows "(stats_col s' ! i) avg_line_length =
     Some (if length (lines_of c s i) = 0 then 0
           else of_nat (length (text_col s ! i)) / of_nat (length (lines_of c s i)))"
  using assms
  by (auto simp: compute_one_defs cached_lines_def lines_of_def split: compute_one_splits)

subsection \<open>The loop\<close>

lemma compute_loop_frame:
  "compute_loop c s is = Inr s' \<Longrightarrow>
     length (stats_col s') = length (stats_col s) \<and> text_col s' = text_col s"
proof (induction "is" arbitrary: s)
  case Nil
  then show ?case by simp
next
  case (Cons i "is")
  then obtain s1 where s1: "compute_one c s i = Inr s1" "compute_loop c s1 is = Inr s'"
    by (auto split: sum.splits)
  from Cons.IH [OF s1(2)] compute_one_frame [OF s1(1)] show ?case by simp
qed

lemma compute_loop_present:
  "compute_loop c s is = Inr s' \<Longrightarrow> avg_line_length \<in> dom (stats_col s ! j) \<Longrightarrow>
     stats_col s' ! j = stats_col s ! j"
proof (induction "is" arbitrary: s)
  case Nil
  then show ?case by simp
next
  case (Cons i "is")
  then obtain s1 where s1: "compute_one c s i = Inr s1" "compute_loop c s1 is = Inr s'"
    by (auto split: sum.splits)
  have same: "stats_col s1 ! j = stats_col s ! j"
    using compute_one_present [OF s1(1) Cons.prems(2)] .
  with Cons.prems(2) have "avg_line_length \<in> dom (stats_col s1 ! j)" by simp
  from Cons.IH [OF s1(2) this] same show ?case by simp
qed

lemma compute_loop_skip:
  "\<forall>i\<in>set is. avg_line_length \<in> dom (stats_col s ! i) \<Longrightarrow> compute_loop c s is = Inr s"
  by (induction "is") (simp_all add: compute_one_skip)

lemma compute_loop_stores:
  "compute_loop c s is = Inr s' \<Longrightarrow> i \<in> set is \<Longrightarrow> i < length (stats_col s) \<Longrightarrow>
     avg_line_length \<in> dom (stats_col s' ! i)"
proof (induction "is" arbitrary: s)
  case Nil
  then show ?case by simp
next
  case (Cons j "is")
  then obtain s1 where s1: "compute_one c s j = Inr s1" "compute_loop c s1 is = Inr s'"
    by (auto split: sum.splits)
  have len: "length (stats_col s1) = length (stats_col s)"
    using compute_one_frame [OF s1(1)] by simp
  show ?case
  proof (cases "i = j")
    case True
    with compute_one_stores [OF s1(1)] Cons.prems(3)
    have "avg_line_length \<in> dom (stats_col s1 ! i)" by simp
    with compute_loop_present [OF s1(2) this] show ?thesis by simp
  next
    case False
    with Cons.prems(2) have "i \<in> set is" by simp
    from Cons.IH [OF s1(2) this] Cons.prems(3) len show ?thesis by simp
  qed
qed

lemma compute_loop_value:
  assumes "compute_loop c s is = Inr s'" "i \<in> set is" "i < length (stats_col s)"
    "avg_line_length \<notin> dom (stats_col s ! i)"
  shows "(stats_col s' ! i) avg_line_length =
     Some (if length (lines_of c s i) = 0 then 0
           else of_nat (length (text_col s ! i)) / of_nat (length (lines_of c s i)))"
  using assms
proof (induction "is" arbitrary: s)
  case Nil
  then show ?case by simp
next
  case (Cons j "is")
  then obtain s1 where s1: "compute_one c s j = Inr s1" "compute_loop c s1 is = Inr s'"
    by (auto split: sum.splits)
  have frame: "length (stats_col s1) = length (stats_col s)" "text_col s1 = text_col s"
    using compute_one_frame [OF s1(1)] by simp_all
  show ?case
  proof (cases "i = j")
    case True
    have v: "(stats_col s1 ! i) avg_line_length =
       Some (if length (lines_of c s i) = 0 then 0
             else of_nat (length (text_col s ! i)) / of_nat (length (lines_of c s i)))"
      using compute_one_value [of c s i s1] s1(1) Cons.prems(3,4) True by simp
    then have "avg_line_length \<in> dom (stats_col s1 ! i)" by blast
    from compute_loop_present [OF s1(2) this] v show ?thesis by simp
  next
    case False
    with Cons.prems(2) have mem: "i \<in> set is" by simp
    have st: "stats_col s1 ! i = stats_col s ! i"
      using compute_one_other [OF s1(1) False] .
    have "cached_lines c s1 i = cached_lines c s i"
      using compute_one_cached_other [OF s1(1) False] .
    then have ls: "lines_of c s1 i = lines_of c s i"
      by (simp add: lines_of_def frame split: option.splits)
    from Cons.IH [OF s1(2) mem] Cons.prems(3,4) st ls frame show ?thesis by simp
  qed
qed

lemma compute_loop_total:
  "aligned c s \<Longrightarrow> \<forall>i\<in>set is. i < length (stats_col s) \<Longrightarrow>
     \<exists>s'. compute_loop c s is = Inr s'"
proof (induction "is" arbitrary: s)
  case Nil
  then show ?case by simp
next
  case (Cons i "is")
  then obtain s1 where s1: "compute_one c s i = Inr s1"
    using compute_one_total [of c s i] by auto
  have "aligned c s1" using compute_one_aligned [OF s1 Cons.prems(1)] .
  moreover have "\<forall>k\<in>set is. k < length (stats_col s1)"
    using Cons.prems(2) compute_one_frame [OF s1] by simp
  ultimately obtain s' where "compute_loop c s1 is = Inr s'"
    using Cons.IH by blast
  with s1 show ?case by simp
qed

subsection \<open>Cache coherence\<close>

text \<open>With context sharing off nothing is cached; a batch whose Context records have no
  line entry yet is coherent; and \<open>compute_stats\<close> keeps a coherent batch coherent.\<close>

lemma coherent_no_context: "coherent False s"
  by (simp add: coherent_def cached_lines_def)

lemma coherent_fresh:
  "context_col s = Some cs \<Longrightarrow> \<forall>c\<in>set cs. c context_key = None \<Longrightarrow> coherent ctx s"
  by (force simp: coherent_def cached_lines_def split: option.splits dest: nth_mem)

lemma compute_one_cached_same:
  "compute_one c s i = Inr s' \<Longrightarrow>
     cached_lines c s' i = cached_lines c s i \<or>
     cached_lines c s' i = Some (splitlines (text_col s ! i))"
  by (auto simp: compute_one_defs cached_lines_def split: compute_one_splits)

lemma compute_one_coherent:
  assumes "compute_one c s i = Inr s'" and "coherent c s"
  shows "coherent c s'"
proof -
  have frame: "length (stats_col s') = length (stats_col s)" "text_col s' = text_col s"
    using compute_one_frame [OF assms(1)] by simp_all
  have "case cached_lines c s' j of None \<Rightarrow> True
        | Some lines \<Rightarrow> lines = splitlines (text_col s' ! j)"
    if "j < length (stats_col s')" for j
  proof (cases "j = i")
    case True
    from assms(2) that frame have
      "case cached_lines c s i of None \<Rightarrow> True | Some lines \<Rightarrow> lines = splitlines (text_col s ! i)"
      by (simp add: coherent_def True)
    with compute_one_cached_same [OF assms(1)] show ?thesis
      by (auto simp: True frame split: option.splits)
  next
    case False
    from assms(2) that frame have
      "case cached_lines c s j of None \<Rightarrow> True | Some lines \<Rightarrow> lines = splitlines (text_col s ! j)"
      by (simp add: coherent_def)
    with compute_one_cached_other [OF assms(1) False] show ?thesis
      by (simp add: frame split: option.splits)
  qed
  then show ?thesis by (simp add: coherent_def)
qed

lemma compute_loop_coherent:
  "compute_loop c s is = Inr s' \<Longrightarrow> coherent c s \<Longrightarrow> coherent c s'"
proof (induction "is" arbitrary: s)
  case Nil
  then show ?case by simp
next
  case (Cons i "is")
  then obtain s1 where s1: "compute_one c s i = Inr s1" "compute_loop c s1 is = Inr s'"
    by (auto split: sum.splits)
  from Cons.IH [OF s1(2) compute_one_coherent [OF s1(1) Cons.prems(2)]] show ?case .
qed

lemma coherent_lines_of:
  "coherent c s \<Longrightarrow> i < length (stats_col s) \<Longrightarrow> lines_of c s i = splitlines (text_col s ! i)"
  by (auto simp: coherent_def lines_of_def split: option.splits)

subsection \<open>Claim C1\<close>

text \<open>
  Claim C1. On a batch whose columns are aligned and whose cache is coherent (in
  particular on every call without context sharing), \<open>compute_stats\<close> returns, keeps the
  cache coherent, and for every sample whose Stats record lacks \<open>avg_line_length\<close> it
  stores \<open>len(T) / L\<close> when \<open>L > 0\<close> and \<open>0.0\<close> when \<open>L = 0\<close>, where \<open>L\<close> is the number of
  lines obtained by splitting the text \<open>T\<close> on line boundaries; \<open>L = 0\<close> exactly when
  \<open>T\<close> is empty. The quotient is the exact one, of which Python's float is the nearest
  double.
\<close>

theorem compute_stats_avg_line_length:
  assumes "aligned ctx s" and "coherent ctx s"
  shows "\<exists>s'. compute_stats ctx s = Inr s' \<and> coherent ctx s' \<and>
     (\<forall>i<length (stats_col s). avg_line_length \<notin> dom (stats_col s ! i) \<longrightarrow>
        (stats_col s' ! i) avg_line_length =
          Some (if length (splitlines (text_col s ! i)) = 0 then 0
                else of_nat (length (text_col s ! i)) /
                     of_nat (length (splitlines (text_col s ! i)))) \<and>
        (length (splitlines (text_col s ! i)) = 0 \<longleftrightarrow> text_col s ! i = []))"
proof -
  obtain s' where s': "compute_stats ctx s = Inr s'"
    using compute_loop_total [of ctx s "[0..<length (stats_col s)]"] assms(1)
    by (auto simp: compute_stats_def)
  then have co: "coherent ctx s'"
    using compute_loop_coherent [of ctx s "[0..<length (stats_col s)]" s'] assms(2)
    by (simp add: compute_stats_def)
  have "(stats_col s' ! i) avg_line_length =
          Some (if length (splitlines (text_col s ! i)) = 0 then 0
                else of_nat (length (text_col s ! i)) /
                     of_nat (length (splitlines (text_col s ! i))))"
    if "i < length (stats_col s)" "avg_line_length \<notin> dom (stats_col s ! i)" for i
    using compute_loop_value [of ctx s "[0..<length (stats_col s)]" s' i] s' that
      coherent_lines_of [OF assms(2) that(1)]
    by (simp add: compute_stats_def)
  moreover have "length (splitlines t) = 0 \<longleftrightarrow> t = []" for t
    by (simp add: splitlines_Nil)
  ultimately show ?thesis using s' co by blast
qed

text \<open>Claim C1 on a batch of three samples with context sharing on: five characters in
  two lines, the empty text, and six characters in two lines taken from the cache.\<close>

theorem compute_stats_avg_line_length_witness:
  "aligned True batch1 \<and> coherent True batch1 \<and>
   (case compute_stats True batch1 of
      Inl e \<Rightarrow> False
    | Inr s' \<Rightarrow> (stats_col s' ! 0) avg_line_length = Some (5 / 2) \<and>
               (stats_col s' ! 1) avg_line_length = Some 0 \<and>
               (stats_col s' ! 2) avg_line_length = Some 3)"
proof -
  have a: "aligned True batch1" by (simp add: aligned_def batch1_def)
  have sp: "splitlines (text_col batch1 ! 0) = [str ''ab'', str ''cd'']"
    "splitlines (text_col batch1 ! 1) = []"
    "splitlines (text_col batch1 ! 2) = [str ''x'', str ''yz'']"
    by (simp_all add: batch1_def splitlines_def is_linebreak_def)
  have c: "coherent True batch1"
    unfolding coherent_def using sp
    by (simp add: batch1_def cached_lines_def less_Suc_eq all_conj_distrib context_key_def)
  from compute_stats_avg_line_length [OF a c] obtain s' where
    s': "compute_stats True batch1 = Inr s'"
    and v: "\<forall>i<length (stats_col batch1). avg_line_length \<notin> dom (stats_col batch1 ! i) \<longrightarrow>
        (stats_col s' ! i) avg_line_length =
          Some (if length (splitlines (text_col batch1 ! i)) = 0 then 0
                else of_nat (length (text_col batch1 ! i)) /
                     of_nat (length (splitlines (text_col batch1 ! i))))"
    by blast
  from v [rule_format, of 0] have "(stats_col s' ! 0) avg_line_length = Some (5 / 2)"
    by (simp add: sp) (simp add: batch1_def)
  moreover from v [rule_format, of 1] have "(stats_col s' ! 1) avg_line_length = Some 0"
    by (simp add: sp) (simp add: batch1_def)
  moreover from v [rule_format, of 2] have "(stats_col s' ! 2) avg_line_length = Some 3"
    by (simp add: sp) (simp add: batch1_def)
  ultimately show ?thesis using a c s' by simp
qed

subsection \<open>Claim C6\<close>

text \<open>
  Claim C6. A sample whose Stats record already has \<open>avg_line_length\<close> keeps its Stats
  record as it is, and running \<open>compute_stats\<close> again on the result of a run changes
  nothing (whatever the context flag of the second run).
\<close>

theorem compute_stats_idempotent:
  assumes "compute_stats ctx s = Inr s'"
  shows "(\<forall>i<length (stats_col s). avg_line_length \<in> dom (stats_col s ! i) \<longrightarrow>
            stats_col s' ! i = stats_col s ! i) \<and>
         compute_stats ctx2 s' = Inr s'"
proof -
  from assms have loop: "compute_loop ctx s [0..<length (stats_col s)] = Inr s'"
    by (simp add: compute_stats_def)
  have len: "length (stats_col s') = length (stats_col s)"
    using compute_loop_frame [OF loop] by simp
  have "\<forall>i\<in>set [0..<length (stats_col s')]. avg_line_length \<in> dom (stats_col s' ! i)"
    using compute_loop_stores [OF loop] len by simp
  then have "compute_stats ctx2 s' = Inr s'"
    unfolding compute_stats_def by (rule compute_loop_skip)
  moreover have "stats_col s' ! i = stats_col s ! i"
    if "avg_line_length \<in> dom (stats_col s ! i)" for i
    using compute_loop_present [OF loop that] .
  ultimately show ?thesis by blast
qed

text \<open>Claim C6 on a batch whose second sample already has the value 99: the run computes
  \<open>5 / 2\<close> for the first sample, keeps 99, and a second run returns the same batch.\<close>

theorem compute_stats_idempotent_witness:
  "compute_stats False batch2 = Inr batch2_done \<and>
   (stats_col batch2 ! 1) avg_line_length = Some 99 \<and>
   stats_col batch2_done ! 1 = stats_col batch2 ! 1 \<and>
   compute_stats False batch2_done = Inr batch2_done"
proof -
  have run: "compute_stats False batch2 = Inr batch2_done"
    by (simp add: compute_stats_def compute_one_def get_lines_def batch2_def batch2_done_def
        splitlines_def is_linebreak_def)
  have pre: "(stats_col batch2 ! 1) avg_line_length = Some 99"
    by (simp add: batch2_def)
  from compute_stats_idempotent [OF run, of False] pre show ?thesis
    using run by (simp add: batch2_def dom_def)
qed

section \<open>The filter: the keep or drop decision\<close>

lemma process_loop_eq:
  "process_loop cfg acc sts =
     (if \<forall>st\<in>set sts. st avg_line_length \<noteq> None
      then Inr (acc @ map (\<lambda>st. of_int (min_len cfg) \<le> the (st avg_line_length) \<and>
                               the (st avg_line_length) \<le> of_int (max_len cfg)) sts)
      else Inl KeyError)"
  by (induction sts arbitrary: acc) (auto split: option.splits)

lemma process_single_eq:
  "process cfg (StatsOne st) =
     (case st avg_line_length of
        None \<Rightarrow> Inl KeyError
      | Some m \<Rightarrow> Inr (OneBool (of_int (min_len cfg) \<le> m \<and> m \<le> of_int (max_len cfg))))"
  by (simp split: option.splits)

lemma process_batched_eq:
  "process cfg (StatsList sts) =
     (if \<forall>st\<in>set sts. st avg_line_length \<noteq> None
      then Inr (Bools (map (\<lambda>st. of_int (min_len cfg) \<le> the (st avg_line_length) \<and>
                               the (st avg_line_length) \<le> of_int (max_len cfg)) sts))
      else Inl KeyError)"
  by (simp add: process_loop_eq)

lemma stats3_computed: "\<forall>st\<in>set stats3. st avg_line_length \<noteq> None"
  by (simp add: stats3_def del: not_None_eq)

subsection \<open>Claim C5\<close>

text \<open>
  Claim C5. The single-sample mode keeps a sample exactly when
  \<open>min_len \<le> metric \<le> max_len\<close>, both bounds included, and the batched mode returns
  that decision for every Stats record of the list, in the order of the list. A Stats
  record without the metric raises KeyError in both modes.
\<close>

theorem process_keeps_iff_in_range:
  "process cfg (StatsOne st) =
     (case st avg_line_length of
        None \<Rightarrow> Inl KeyError
      | Some m \<Rightarrow> Inr (OneBool (of_int (min_len cfg) \<le> m \<and> m \<le> of_int (max_len cfg)))) \<and>
   process cfg (StatsList sts) =
     (if \<forall>st\<in>set sts. st avg_line_length \<noteq> None
      then Inr (Bools (map (\<lambda>st. of_int (min_len cfg) \<le> the (st avg_line_length) \<and>
                               the (st avg_line_length) \<le> of_int (max_len cfg)) sts))
      else Inl KeyError)"
  using process_single_eq process_batched_eq by blast

text \<open>Claim C5 under the default bounds: 10 is kept (the lower bound is included),
  \<open>19 / 2\<close> is dropped, 80 is kept.\<close>

theorem process_keeps_iff_in_range_witness:
  "process cfg_default (StatsOne [avg_line_length \<mapsto> 10]) = Inr (OneBool True) \<and>
   process cfg_default (StatsList stats3) = Inr (Bools [True, False, True])"
proof -
  have m: "map (\<lambda>st. of_int (min_len cfg_default) \<le> the (st avg_line_length) \<and>
                   the (st avg_line_length) \<le> of_int (max_len cfg_default)) stats3
             = [True, False, True]"
    by (simp add: stats3_def cfg_default_def)
  from process_keeps_iff_in_range [of cfg_default "[avg_line_length \<mapsto> 10]" stats3]
    stats3_computed m
  show ?thesis by (simp add: cfg_default_def del: process.simps)
qed

subsection \<open>Claim C3\<close>

text \<open>
  Claim C3. For a list of Stats records that all have the metric, the batched mode
  returns one boolean per record, and the boolean at each position is the decision the
  single-sample mode returns for the record at that position, under the same bounds.
\<close>

theorem process_modes_agree:
  assumes "\<forall>st\<in>set sts. st avg_line_length \<noteq> None"
  shows "\<exists>bs. process cfg (StatsList sts) = Inr (Bools bs) \<and> length bs = length sts \<and>
           (\<forall>i<length sts. process cfg (StatsOne (sts ! i)) = Inr (OneBool (bs ! i)))"
proof -
  let ?keep = "\<lambda>st. of_int (min_len cfg) \<le> the (st avg_line_length) \<and>
                     the (st avg_line_length) \<le> of_int (max_len cfg)"
  have b: "process cfg (StatsList sts) = Inr (Bools (map ?keep sts))"
    using assms by (simp add: process_batched_eq del: process.simps)
  have "process cfg (StatsOne (sts ! i)) = Inr (OneBool (map ?keep sts ! i))"
    if "i < length sts" for i
  proof -
    from that assms obtain m where "(sts ! i) avg_line_length = Some m"
      by (meson nth_mem not_None_eq)
    with that show ?thesis by (simp add: process_single_eq del: process.simps)
  qed
  with b show ?thesis by simp
qed

text \<open>Claim C3 on three Stats records under the default bounds.\<close>

theorem process_modes_agree_witness:
  "\<exists>bs. process cfg_default (StatsList stats3) = Inr (Bools bs) \<and> length bs = 3 \<and>
     process cfg_default (StatsOne (stats3 ! 0)) = Inr (OneBool (bs ! 0)) \<and>
     process cfg_default (StatsOne (stats3 ! 1)) = Inr (OneBool (bs ! 1)) \<and>
     process cfg_default (StatsOne (stats3 ! 2)) = Inr (OneBool (bs ! 2))"
proof -
  from process_modes_agree [OF stats3_computed, of cfg_default] obtain bs where
    bs: "process cfg_default (StatsList stats3) = Inr (Bools bs)" "length bs = length stats3"
      "\<forall>i<length stats3. process cfg_default (StatsOne (stats3 ! i)) = Inr (OneBool (bs ! i))"
    by blast
  have len: "length stats3 = 3" by (simp add: stats3_def)
  from bs(3) len have "process cfg_default (StatsOne (stats3 ! 0)) = Inr (OneBool (bs ! 0))"
    "process cfg_default (StatsOne (stats3 ! 1)) = Inr (OneBool (bs ! 1))"
    "process cfg_default (StatsOne (stats3 ! 2)) = Inr (OneBool (bs ! 2))"
    by simp_all
  with bs(1,2) len show ?thesis by auto
qed

subsection \<open>Claim C9\<close>

text \<open>
  Claim C9. If \<open>min' \<le> min\<close> and \<open>max \<le> max'\<close>, a sample kept under \<open>[min, max]\<close> is kept
  under \<open>[min', max']\<close>: in the single-sample mode, and at every position of the batched
  result.
\<close>

theorem process_monotone:
  assumes "min_len cfg' \<le> min_len cfg" and "max_len cfg \<le> max_len cfg'"
  shows "(process cfg (StatsOne st) = Inr (OneBool True) \<longrightarrow>
            process cfg' (StatsOne st) = Inr (OneBool True)) \<and>
         (process cfg (StatsList sts) = Inr (Bools bs) \<longrightarrow>
            (\<exists>bs'. process cfg' (StatsList sts) = Inr (Bools bs') \<and> length bs' = length bs \<and>
                   (\<forall>i<length bs. bs ! i \<longrightarrow> bs' ! i)))"
proof -
  have mono: "of_int (min_len cfg') \<le> m \<and> m \<le> of_int (max_len cfg')"
    if "of_int (min_len cfg) \<le> m \<and> m \<le> of_int (max_len cfg)" for m :: rat
  proof -
    have "(of_int (min_len cfg') :: rat) \<le> of_int (min_len cfg)"
      "(of_int (max_len cfg) :: rat) \<le> of_int (max_len cfg')"
      using assms by simp_all
    with that show ?thesis by linarith
  qed
  have single: "process cfg' (StatsOne st) = Inr (OneBool True)"
    if "process cfg (StatsOne st) = Inr (OneBool True)"
  proof -
    from that obtain m where m: "st avg_line_length = Some m"
      "of_int (min_len cfg) \<le> m \<and> m \<le> of_int (max_len cfg)"
      by (auto simp: process_single_eq simp del: process.simps split: option.splits)
    from mono [OF m(2)] m(1) show ?thesis
      by (simp add: process_single_eq del: process.simps)
  qed
  have batched: "\<exists>bs'. process cfg' (StatsList sts) = Inr (Bools bs') \<and> length bs' = length bs \<and>
                   (\<forall>i<length bs. bs ! i \<longrightarrow> bs' ! i)"
    if "process cfg (StatsList sts) = Inr (Bools bs)"
  proof -
    let ?keep = "\<lambda>c st. of_int (min_len c) \<le> the (st avg_line_length) \<and>
                       the (st avg_line_length) \<le> of_int (max_len c)"
    from that have ok: "\<forall>st\<in>set sts. st avg_line_length \<noteq> None"
      and bs: "bs = map (?keep cfg) sts"
      by (auto simp: process_batched_eq simp del: process.simps split: if_splits)
    have "process cfg' (StatsList sts) = Inr (Bools (map (?keep cfg') sts))"
      using ok by (simp add: process_batched_eq del: process.simps)
    moreover have "\<forall>i<length bs. bs ! i \<longrightarrow> map (?keep cfg') sts ! i"
      using mono by (simp add: bs)
    ultimately show ?thesis by (simp add: bs)
  qed
  from single batched show ?thesis by blast
qed

text \<open>Claim C9 with the bounds \<open>[10, 100]\<close> widened to \<open>[5, 200]\<close>.\<close>

theorem process_monotone_witness:
  "min_len cfg_wide \<le> min_len cfg_narrow \<and> max_len cfg_narrow \<le> max_len cfg_wide \<and>
   process cfg_narrow (StatsOne [avg_line_length \<mapsto> 80]) = Inr (OneBool True) \<and>
   process cfg_wide (StatsOne [avg_line_length \<mapsto> 80]) = Inr (OneBool True) \<and>
   process cfg_narrow (StatsList stats3) = Inr (Bools [True, False, True]) \<and>
   (\<exists>bs'. process cfg_wide (StatsList stats3) = Inr (Bools bs') \<and> bs' ! 0 \<and> bs' ! 2)"
proof -
  have h: "min_len cfg_wide \<le> min_len cfg_narrow" "max_len cfg_narrow \<le> max_len cfg_wide"
    by (simp_all add: cfg_wide_def cfg_narrow_def)
  have p1: "process cfg_narrow (StatsOne [avg_line_length \<mapsto> 80]) = Inr (OneBool True)"
    by (simp add: cfg_narrow_def)
  have p2: "process cfg_narrow (StatsList stats3) = Inr (Bools [True, False, True])"
    by (simp add: cfg_narrow_def stats3_def)
  note mono = process_monotone [OF h, of "[avg_line_length \<mapsto> 80]" stats3 "[True, False, True]"]
  from mono p1
  have q1: "process cfg_wide (StatsOne [avg_line_length \<mapsto> 80]) = Inr (OneBool True)"
    by blast
  from mono p2 obtain bs' where bs': "process cfg_wide (StatsList stats3) = Inr (Bools bs')"
    "\<forall>i<length [True, False, True]. [True, False, True] ! i \<longrightarrow> bs' ! i"
    by blast
  from bs'(2) have "bs' ! 0" "bs' ! 2" by simp_all
  with bs'(1)
  have "\<exists>bs'. process cfg_wide (StatsList stats3) = Inr (Bools bs') \<and> bs' ! 0 \<and> bs' ! 2"
    by blast
  with h p1 p2 q1 show ?thesis by blast
qed

section \<open>The mapper: the seed corpus\<close>

subsection \<open>Pairing of messages\<close>

lemma last_user_Nil: "last_user u0 [] = u0"
  by (simp add: last_user_def)

lemma last_user_Cons:
  "last_user u0 (m # ms) = last_user (if is_role ''user'' m then content_of m else u0) ms"
  by (simp add: last_user_def split: list.splits)

lemma expected_from_Cons:
  "expected_from u0 (m # ms) =
     (if is_role ''assistant'' m then [(u0, content_of m)] else []) @
     expected_from (if is_role ''user'' m then content_of m else u0) ms"
proof -
  have upt: "[0..<length (m # ms)] = 0 # map Suc [0..<length ms]"
    by (simp add: upt_conv_Cons map_Suc_upt del: upt_Suc)
  show ?thesis
    unfolding expected_from_def upt
    by (simp add: last_user_Cons last_user_Nil o_def del: upt_Suc cong: if_cong)
qed

lemma length_expected_from:
  "length (expected_from u0 ms) = length (filter (is_role ''assistant'') ms)"
  by (induction ms arbitrary: u0) (simp_all add: expected_from_Cons, simp add: expected_from_def)

lemma chatml_loop_pairs:
  "chatml_loop st ms = Inr st' \<Longrightarrow>
     qa_pairs st' = qa_pairs st @ expected_from (user_input st) ms"
proof (induction ms arbitrary: st)
  case Nil
  then show ?case by (simp add: expected_from_def)
next
  case (Cons m ms)
  from Cons.prems obtain role content where
    rc: "getitem m (str ''role'') = Inr role" "getitem m (str ''content'') = Inr content"
    by (auto split: sum.splits)
  have c: "content_of m = content" using rc by (simp add: content_of_def)
  consider (user) "role = JStr (str ''user'')" | (assistant) "role = JStr (str ''assistant'')"
    | (other) "role \<noteq> JStr (str ''user'')" "role \<noteq> JStr (str ''assistant'')"
    by blast
  then show ?case
  proof cases
    case user
    then have r: "is_role ''user'' m" "\<not> is_role ''assistant'' m"
      using rc by (simp_all add: is_role_def)
    from Cons.prems rc user have "chatml_loop (st\<lparr>user_input := content\<rparr>) ms = Inr st'"
      by simp
    from Cons.IH [OF this] show ?thesis
      by (simp add: expected_from_Cons r c)
  next
    case assistant
    then have r: "\<not> is_role ''user'' m" "is_role ''assistant'' m"
      using rc by (simp_all add: is_role_def)
    from Cons.prems rc assistant
    have "chatml_loop (st\<lparr>assistant_output := content,
                           qa_pairs := qa_pairs st @ [(user_input st, content)]\<rparr>) ms = Inr st'"
      by simp
    from Cons.IH [OF this] show ?thesis
      by (simp add: expected_from_Cons r c)
  next
    case other
    then have r: "\<not> is_role ''user'' m" "\<not> is_role ''assistant'' m"
      using rc by (simp_all add: is_role_def)
    from Cons.prems rc other have "chatml_loop st ms = Inr st'"
      by simp
    from Cons.IH [OF this] show ?thesis
      by (simp add: expected_from_Cons r)
  qed
qed

lemma chatml_loop_alternating:
  "chatml_loop st (alternating qas) =
     Inr (st\<lparr>user_input := (if qas = [] then user_input st else fst (last qas)),
             assistant_output := (if qas = [] then assistant_output st else snd (last qas)),
             qa_pairs := qa_pairs st @ qas\<rparr>)"
proof (induction qas arbitrary: st)
  case Nil
  then show ?case by (simp add: alternating_def)
next
  case (Cons qa qas)
  obtain q a where qa: "qa = (q, a)" by (cases qa)
  have alt: "alternating (qa # qas) =
      message ''user'' q # message ''assistant'' a # alternating qas"
    by (simp add: alternating_def qa)
  show ?case
    unfolding alt
    by (simp add: message_def Cons.IH qa)
qed

subsection \<open>Example runs of the parser and the loader\<close>

lemma strip_examples:
  "strip (str ''What is the capital of France?'') = str ''What is the capital of France?''"
  "strip (str ''Paris'') = str ''Paris''"
  "strip (str ''record1'' @ [10]) = str ''record1''"
  "strip (str ''record3'' @ [10]) = str ''record3''"
  "strip [10] = []"
  by (simp_all add: strip_def is_space_def)

lemma parse_record1:
  "parse_chatml_str (loads_table seed_table) (str ''record1'') =
     Inr [(JStr (str ''q1''), JStr (str ''a1'')), (JStr (str ''q1''), JStr (str ''a2''))]"
  by (simp add: parse_chatml_str_def loads_table_def seed_table_def record1_def message_def)

lemma parse_record3:
  "parse_chatml_str (loads_table seed_table) (str ''record3'') = Inr []"
  by (simp add: parse_chatml_str_def loads_table_def seed_table_def record3_def message_def)

lemma load_seed_lines:
  "load_seed_qa_samples (\<lambda>path. Inr seed_lines) (loads_table seed_table) (str ''seed.jsonl'') =
     Inr [[(JStr (str ''q1''), JStr (str ''a1'')), (JStr (str ''q1''), JStr (str ''a2''))]]"
  using strip_examples parse_record1 parse_record3
  by (simp add: load_seed_qa_samples_def seed_lines_def)

lemma load_seed_lines_empty:
  "load_seed_qa_samples (\<lambda>path. Inr seed_lines_empty) (loads_table seed_table)
     (str ''seed.jsonl'') = Inr []"
  using strip_examples parse_record1 parse_record3
  by (simp add: load_seed_qa_samples_def seed_lines_empty_def)

subsection \<open>Claim C4\<close>

text \<open>
  Claim C4 says that a pair is emitted only once a user message and a following
  assistant message have been seen. The parser appends a pair at every assistant
  message, whether or not a user message came before: a record whose only message is
  from the assistant gives one pair, with \<open>None\<close> as its question.
\<close>

theorem parse_chatml_str_lone_assistant_counterexample:
  "parse_chatml_str (loads_table seed_table) (str ''record2'') =
     Inr [(JNull, JStr (str ''hi''))] \<and>
   getitem record2 (str ''messages'') = Inr (JArr [message ''assistant'' (JStr (str ''hi''))]) \<and>
   filter (is_role ''user'') [message ''assistant'' (JStr (str ''hi''))] = []"
  by (simp add: parse_chatml_str_def loads_table_def seed_table_def record2_def message_def
      is_role_def)

text \<open>
  Claim C4, amended. For a record whose messages are the list \<open>ms\<close>, the parser emits
  exactly one pair for each assistant message, in conversation order; the answer of the
  pair is the content of that assistant message and its question is the content of the
  most recent user message before it, which serves every assistant message up to the next
  user message. In particular a record of \<open>N\<close> alternating user and assistant messages
  gives exactly those \<open>N\<close> pairs in order.
\<close>

theorem parse_chatml_str_pairs:
  "(json_loads input_str = Inr data \<and> getitem data (str ''messages'') = Inr (JArr ms) \<and>
    parse_chatml_str json_loads input_str = Inr pairs \<longrightarrow>
      pairs = expected_from JNull ms \<and>
      length pairs = length (filter (is_role ''assistant'') ms)) \<and>
   (json_loads input_str = Inr (JObj [(str ''messages'', JArr (alternating qas))]) \<longrightarrow>
      parse_chatml_str json_loads input_str = Inr qas)"
proof -
  have "pairs = expected_from JNull ms"
    if "json_loads input_str = Inr data" "getitem data (str ''messages'') = Inr (JArr ms)"
      "parse_chatml_str json_loads input_str = Inr pairs"
  proof -
    from that obtain st where
      "chatml_loop \<lparr>user_input = JNull, assistant_output = JNull, qa_pairs = []\<rparr> ms = Inr st"
      "pairs = qa_pairs st"
      by (auto simp: parse_chatml_str_def split: sum.splits)
    with chatml_loop_pairs [OF this(1)] show ?thesis by simp
  qed
  moreover have "parse_chatml_str json_loads input_str = Inr qas"
    if "json_loads input_str = Inr (JObj [(str ''messages'', JArr (alternating qas))])"
    using that by (simp add: parse_chatml_str_def chatml_loop_alternating)
  ultimately show ?thesis using length_expected_from by blast
qed

text \<open>The amended claim on a record with two user messages in a row, then an assistant
  message, a system message and a second assistant message: both pairs use the second
  user message. And on a record of two alternating turns.\<close>

theorem parse_chatml_str_pairs_witness:
  "parse_chatml_str (loads_table seed_table) (str ''record1'') =
     Inr [(JStr (str ''q1''), JStr (str ''a1'')), (JStr (str ''q1''), JStr (str ''a2''))] \<and>
   expected_from JNull
     [message ''user'' (JStr (str ''q0'')), message ''user'' (JStr (str ''q1'')),
      message ''assistant'' (JStr (str ''a1'')), message ''system'' (JStr (str ''s'')),
      message ''assistant'' (JStr (str ''a2''))] =
     [(JStr (str ''q1''), JStr (str ''a1'')), (JStr (str ''q1''), JStr (str ''a2''))] \<and>
   parse_chatml_str (loads_table seed_table) (str ''record4'') =
     Inr [(JStr (str ''q1''), JStr (str ''a1'')), (JStr (str ''q2''), JStr (str ''a2''))]"
proof -
  let ?ms = "[message ''user'' (JStr (str ''q0'')), message ''user'' (JStr (str ''q1'')),
      message ''assistant'' (JStr (str ''a1'')), message ''system'' (JStr (str ''s'')),
      message ''assistant'' (JStr (str ''a2''))]"
  let ?ps = "[(JStr (str ''q1''), JStr (str ''a1'')), (JStr (str ''q1''), JStr (str ''a2''))]"
  let ?qas = "[(JStr (str ''q1''), JStr (str ''a1'')), (JStr (str ''q2''), JStr (str ''a2''))]"
  have h1: "loads_table seed_table (str ''record1'') = Inr record1"
    by (simp add: loads_table_def seed_table_def)
  have h2: "getitem record1 (str ''messages'') = Inr (JArr ?ms)"
    by (simp add: record1_def)
  have h4: "loads_table seed_table (str ''record4'') =
      Inr (JObj [(str ''messages'', JArr (alternating ?qas))])"
    by (simp add: loads_table_def seed_table_def record4_def)
  from parse_chatml_str_pairs [where json_loads = "loads_table seed_table"
      and input_str = "str ''record1''" and data = record1 and ms = ?ms and pairs = ?ps]
    h1 h2 parse_record1
  have "?ps = expected_from JNull ?ms" by blast
  moreover from parse_chatml_str_pairs [where json_loads = "loads_table seed_table"
      and input_str = "str ''record4''" and qas = ?qas] h4
  have "parse_chatml_str (loads_table seed_table) (str ''record4'') = Inr ?qas" by blast
  ultimately show ?thesis using parse_record1 by simp
qed

subsection \<open>The loader\<close>

lemma load_loop_filter:
  "load_loop json_loads acc lines = Inr samples \<Longrightarrow>
     \<exists>parsed. list_all2 (\<lambda>line pairs. parse_chatml_str json_loads (strip line) = Inr pairs)
                lines parsed \<and>
              samples = acc @ filter (\<lambda>pairs. pairs \<noteq> []) parsed"
proof (induction lines arbitrary: acc)
  case Nil
  then show ?case by simp
next
  case (Cons line lines)
  from Cons.prems obtain pairs where
    p: "parse_chatml_str json_loads (strip line) = Inr pairs"
    by (auto split: sum.splits)
  with Cons.prems have
    "load_loop json_loads (if pairs \<noteq> [] then acc @ [pairs] else acc) lines = Inr samples"
    by (simp split: if_splits)
  from Cons.IH [OF this] obtain parsed where
    "list_all2 (\<lambda>line pairs. parse_chatml_str json_loads (strip line) = Inr pairs) lines parsed"
    "samples = (if pairs \<noteq> [] then acc @ [pairs] else acc) @ filter (\<lambda>pairs. pairs \<noteq> []) parsed"
    by blast
  with p have
    "list_all2 (\<lambda>line pairs. parse_chatml_str json_loads (strip line) = Inr pairs)
       (line # lines) (pairs # parsed) \<and>
     samples = acc @ filter (\<lambda>pairs. pairs \<noteq> []) (pairs # parsed)"
    by simp
  then show ?case by blast
qed

lemma load_loop_error:
  assumes "parse_chatml_str json_loads (strip line) = Inl e"
    and "\<forall>p\<in>set pre. \<exists>pairs. parse_chatml_str json_loads (strip p) = Inr pairs"
  shows "load_loop json_loads acc (pre @ line # post) = Inl e"
  using assms(2)
proof (induction pre arbitrary: acc)
  case Nil
  then show ?case by (simp add: assms(1))
next
  case (Cons p pre)
  then obtain pairs where "parse_chatml_str json_loads (strip p) = Inr pairs" by auto
  with Cons show ?case by simp
qed

lemma load_loop_fails:
  assumes "parse_chatml_str json_loads (strip line) = Inl e"
  shows "\<exists>e'. load_loop json_loads acc (pre @ line # post) = Inl e'"
proof (induction pre arbitrary: acc)
  case Nil
  then show ?case by (simp add: assms)
next
  case (Cons p pre)
  then show ?case by (cases "parse_chatml_str json_loads (strip p)") simp_all
qed

subsection \<open>Claim C7\<close>

text \<open>
  Claim C7. The samples the loader returns are the pair lists of the lines of the file,
  in order, without the empty ones: a record that gives no pair is dropped. When the
  loader returns no sample at all, construction fails, with ValueError once the seed
  path is not empty and the model is prepared; and a mapper that has been constructed
  holds the loaded samples, of which there is at least one.
\<close>

theorem seed_corpus_never_empty:
  "(load_seed_qa_samples readlines json_loads path = Inr samples \<longrightarrow>
      [] \<notin> set samples \<and>
      (\<exists>lines parsed. readlines path = Inr lines \<and>
         list_all2 (\<lambda>line pairs. parse_chatml_str json_loads (strip line) = Inr pairs)
           lines parsed \<and>
         samples = filter (\<lambda>pairs. pairs \<noteq> []) parsed)) \<and>
   (load_seed_qa_samples readlines json_loads path = Inr [] \<longrightarrow>
      (\<exists>e. init_mapper prepare_model readlines json_loads tkey (Some path) n threshold = Inl e) \<and>
      (path \<noteq> [] \<and> (\<exists>key. prepare_model = Inr key) \<longrightarrow>
         init_mapper prepare_model readlines json_loads tkey (Some path) n threshold
           = Inl ValueError)) \<and>
   (init_mapper prepare_model readlines json_loads tkey seed_file n threshold = Inr m \<longrightarrow>
      seed_qa_samples m \<noteq> [] \<and>
      (\<exists>path'. seed_file = Some path' \<and>
         load_seed_qa_samples readlines json_loads path' = Inr (seed_qa_samples m)))"
proof -
  have a: "[] \<notin> set samples \<and>
      (\<exists>lines parsed. readlines path = Inr lines \<and>
         list_all2 (\<lambda>line pairs. parse_chatml_str json_loads (strip line) = Inr pairs)
           lines parsed \<and>
         samples = filter (\<lambda>pairs. pairs \<noteq> []) parsed)"
    if "load_seed_qa_samples readlines json_loads path = Inr samples"
  proof -
    from that obtain lines where l: "readlines path = Inr lines"
      "load_loop json_loads [] lines = Inr samples"
      by (auto simp: load_seed_qa_samples_def split: sum.splits)
    from load_loop_filter [OF l(2)] l(1) show ?thesis by auto
  qed
  have b: "(\<exists>e. init_mapper prepare_model readlines json_loads tkey (Some path) n threshold
                 = Inl e) \<and>
      (path \<noteq> [] \<and> (\<exists>key. prepare_model = Inr key) \<longrightarrow>
         init_mapper prepare_model readlines json_loads tkey (Some path) n threshold
           = Inl ValueError)"
    if "load_seed_qa_samples readlines json_loads path = Inr []"
    using that by (cases prepare_model) (auto simp: init_mapper_def)
  have c: "seed_qa_samples m \<noteq> [] \<and>
      (\<exists>path'. seed_file = Some path' \<and>
         load_seed_qa_samples readlines json_loads path' = Inr (seed_qa_samples m))"
    if "init_mapper prepare_model readlines json_loads tkey seed_file n threshold = Inr m"
    using that
    by (auto simp: init_mapper_def split: option.splits if_splits sum.splits)
  from a b c show ?thesis by blast
qed

text \<open>Claim C7 on a seed file of two records, the first with a user message only: the
  loader keeps the second record alone, and the mapper is constructed with it. On the
  file with the first record alone the loader returns nothing and construction raises
  ValueError.\<close>

theorem seed_corpus_never_empty_witness:
  "load_seed_qa_samples (\<lambda>path. Inr seed_lines) (loads_table seed_table) (str ''seed.jsonl'') =
     Inr [[(JStr (str ''q1''), JStr (str ''a1'')), (JStr (str ''q1''), JStr (str ''a2''))]] \<and>
   load_seed_qa_samples (\<lambda>path. Inr seed_lines_empty) (loads_table seed_table)
     (str ''seed.jsonl'') = Inr [] \<and>
   init_mapper (Inr ()) (\<lambda>path. Inr seed_lines_empty) (loads_table seed_table) (str ''text'')
     (Some (str ''seed.jsonl'')) 3 (7 / 10) = Inl ValueError \<and>
   (case init_mapper (Inr ()) (\<lambda>path. Inr seed_lines) (loads_table seed_table) (str ''text'')
           (Some (str ''seed.jsonl'')) 3 (7 / 10) of
      Inl e \<Rightarrow> False
    | Inr m \<Rightarrow> seed_qa_samples m \<noteq> [])"
proof -
  let ?f = "str ''seed.jsonl''"
  have ne: "?f \<noteq> []" by simp
  have key: "\<exists>key. (Inr () :: error + unit) = Inr key" by simp
  from seed_corpus_never_empty [where readlines = "\<lambda>path. Inr seed_lines_empty"
      and json_loads = "loads_table seed_table" and path = ?f and prepare_model = "Inr ()"
      and tkey = "str ''text''" and n = 3 and threshold = "7 / 10"]
    load_seed_lines_empty ne key
  have empty: "init_mapper (Inr ()) (\<lambda>path. Inr seed_lines_empty) (loads_table seed_table)
     (str ''text'') (Some ?f) 3 (7 / 10) = Inl ValueError"
    by blast
  obtain m where m: "init_mapper (Inr ()) (\<lambda>path. Inr seed_lines) (loads_table seed_table)
     (str ''text'') (Some ?f) 3 (7 / 10) = Inr m"
    using load_seed_lines by (simp add: init_mapper_def)
  from seed_corpus_never_empty [where readlines = "\<lambda>path. Inr seed_lines"
      and json_loads = "loads_table seed_table" and prepare_model = "Inr ()"
      and tkey = "str ''text''" and n = 3 and threshold = "7 / 10" and seed_file = "Some ?f"
      and m = m] m
  have "seed_qa_samples m \<noteq> []" by blast
  with m load_seed_lines load_seed_lines_empty empty show ?thesis by simp
qed

subsection \<open>Claim C10\<close>

text \<open>
  Claim C10. \<open>json.loads\<close> rejects the empty document. Then a seed file with a blank
  line (a line that is empty once stripped) is never loaded: the loader raises, and the
  error is the parser's JSONDecodeError when every line before the blank one loads.
\<close>

theorem load_seed_blank_line_fails:
  assumes "json_loads [] = Inl JSONDecodeError"
    and "readlines path = Inr (pre @ line # post)"
    and "strip line = []"
  shows "(\<exists>e. load_seed_qa_samples readlines json_loads path = Inl e) \<and>
         ((\<forall>p\<in>set pre. \<exists>pairs. parse_chatml_str json_loads (strip p) = Inr pairs) \<longrightarrow>
            load_seed_qa_samples readlines json_loads path = Inl JSONDecodeError)"
proof -
  have blank: "parse_chatml_str json_loads (strip line) = Inl JSONDecodeError"
    using assms(1,3) by (simp add: parse_chatml_str_def)
  from load_loop_fails [OF blank] load_loop_error [OF blank] assms(2)
  show ?thesis by (simp add: load_seed_qa_samples_def)
qed

text \<open>Claim C10 on a file of one record followed by a single blank line.\<close>

theorem load_seed_blank_line_fails_witness:
  "loads_table seed_table [] = Inl JSONDecodeError \<and>
   strip [10] = [] \<and>
   load_seed_qa_samples (\<lambda>path. Inr seed_lines_blank) (loads_table seed_table)
     (str ''seed.jsonl'') = Inl JSONDecodeError"
proof -
  have h1: "loads_table seed_table [] = Inl JSONDecodeError"
    by (simp add: loads_table_def seed_table_def)
  have h2: "(Inr seed_lines_blank :: error + pystr list) =
      Inr ([str ''record1'' @ [10]] @ [10] # [])"
    by (simp add: seed_lines_blank_def)
  have h3: "strip [10] = []" by (simp add: strip_examples)
  have h4: "\<forall>p\<in>set [str ''record1'' @ [10]].
      \<exists>pairs. parse_chatml_str (loads_table seed_table) (strip p) = Inr pairs"
    using parse_record1 strip_examples by simp
  from load_seed_blank_line_fails [where json_loads = "loads_table seed_table"
      and readlines = "\<lambda>path. Inr seed_lines_blank" and path = "str ''seed.jsonl''"
      and pre = "[str ''record1'' @ [10]]" and line = "[10]" and post = "[]", OF h1 h2 h3] h4
  have "load_seed_qa_samples (\<lambda>path. Inr seed_lines_blank) (loads_table seed_table)
      (str ''seed.jsonl'') = Inl JSONDecodeError"
    by blast
  with h1 h3 show ?thesis by blast
qed

section \<open>The mapper: from the response to the output sample\<close>

lemma parse_response_loop_eq:
  "parse_response_loop out rs ms =
     (out @ map (\<lambda>(q, a). (strip q, strip a)) ms,
      rs @ concat (map (\<lambda>(q, a). strip q @ [10] @ strip a @ [10]) ms))"
  by (induction ms arbitrary: out rs) auto

lemma parse_response_eq:
  "parse_response findall raw =
     (map (\<lambda>(q, a). (strip q, strip a)) (findall raw),
      concat (map (\<lambda>(q, a). strip q @ [10] @ strip a @ [10]) (findall raw)))"
  by (simp add: parse_response_def parse_response_loop_eq)

lemma response_str_empty:
  "snd (parse_response findall raw) = [] \<longleftrightarrow> findall raw = []"
  by (cases "findall raw") (auto simp: parse_response_eq)

lemma append_messages_eq:
  "append_messages ml pairs =
     ml @ concat (map (\<lambda>(q, a). [message ''user'' (JStr q), message ''assistant'' (JStr a)]) pairs)"
  by (induction pairs arbitrary: ml) (auto simp: message_def)

text \<open>When the scorer returns a score for every entry of the corpus, the result of
  \<open>max_rouge_l_score\<close> is the largest of these scores and of the initial \<open>0.0\<close>.\<close>

lemma max_rouge_loop_fold:
  "\<forall>c\<in>set candidates. rouge c reference = Inr (score c) \<Longrightarrow>
     max_rouge_loop rouge reference acc candidates = Inr (fold max (map score candidates) acc)"
  by (induction candidates arbitrary: acc) (auto simp: max_def)

lemma max_rouge_l_score_Max:
  assumes "\<forall>c\<in>set candidates. rouge c reference = Inr (score c)"
  shows "max_rouge_l_score rouge reference candidates =
     Inr (Max (insert 0 (score ` set candidates)))"
proof -
  have "Max (set (0 # map score candidates)) = fold max (map score candidates) 0"
    by (rule Max.set_eq_fold)
  with max_rouge_loop_fold [of candidates rouge reference score 0] assms show ?thesis
    by (simp add: max_rouge_l_score_def)
qed

lemma Max_floor:
  fixes S :: "rat set"
  assumes "finite S" "S \<noteq> {}" "\<forall>x\<in>S. 0 \<le> x"
  shows "Max (insert 0 S) = Max S"
proof -
  from assms(2) obtain x where x: "x \<in> S" by blast
  with assms have "0 \<le> Max S"
    using Max_ge [OF assms(1) x] by force
  with assms(1,2) show ?thesis by (simp add: max_def)
qed

subsection \<open>Claim C2\<close>

text \<open>
  Claim C2. Let the response give at least one match, let \<open>pairs\<close> be the matches,
  stripped, in order, and let the scorer return \<open>score c\<close> for every entry \<open>c\<close> of the
  Reference Corpus against the concatenation of the pairs (question, line feed, answer,
  line feed, for each pair). Then \<open>process\<close> decides on the maximum of these scores over
  the whole corpus, taken with the initial \<open>0.0\<close>, hence the maximum itself when the
  corpus is not empty and no score is negative: if it is at most the threshold the
  messages of the output are the pairs as alternating user and assistant objects, in
  extraction order, and if it exceeds the threshold the messages are empty.
\<close>

theorem process_mapper_emit_or_reject:
  fixes score :: "pystr \<Rightarrow> rat"
  assumes "generate m = Inr raw"
    and "findall raw \<noteq> []"
    and "pairs = map (\<lambda>(q, a). (strip q, strip a)) (findall raw)"
    and "\<forall>c\<in>set (reference_samples m).
           rouge c (concat (map (\<lambda>(q, a). q @ [10] @ a @ [10]) pairs)) = Inr (score c)"
  shows "parse_response findall raw =
           (pairs, concat (map (\<lambda>(q, a). q @ [10] @ a @ [10]) pairs)) \<and>
     process_mapper generate findall rouge json_dumps m =
       Inr [text_key m \<mapsto>
              json_dumps False
                (JObj [(str ''messages'',
                   JArr (if Max (insert 0 (score ` set (reference_samples m)))
                              \<le> similarity_threshold m
                         then concat (map (\<lambda>(q, a). [message ''user'' (JStr q),
                                                      message ''assistant'' (JStr a)]) pairs)
                         else []))])] \<and>
     (reference_samples m \<noteq> [] \<and> (\<forall>c\<in>set (reference_samples m). 0 \<le> score c) \<longrightarrow>
        Max (insert 0 (score ` set (reference_samples m))) =
        Max (score ` set (reference_samples m)))"
proof -
  define response_str where
    "response_str = concat (map (\<lambda>(q, a). q @ [10] @ a @ [10]) pairs)"
  have pr: "parse_response findall raw = (pairs, response_str)"
    by (simp add: parse_response_eq assms(3) response_str_def o_def split_def)
  from assms(2,3) have "pairs \<noteq> []" by simp
  then have ne: "response_str \<noteq> []"
    unfolding response_str_def by (cases pairs) auto
  have sim: "max_rouge_l_score rouge response_str (reference_samples m) =
      Inr (Max (insert 0 (score ` set (reference_samples m))))"
    using assms(4) unfolding response_str_def by (rule max_rouge_l_score_Max)
  from assms(1) pr ne sim have
    "process_mapper generate findall rouge json_dumps m =
       Inr [text_key m \<mapsto>
              json_dumps False
                (JObj [(str ''messages'',
                   JArr (if Max (insert 0 (score ` set (reference_samples m)))
                              \<le> similarity_threshold m
                         then append_messages [] pairs else []))])]"
    by (simp add: process_mapper_def del: Max_insert Max_le_iff Max_less_iff)
  moreover have "Max (insert 0 (score ` set (reference_samples m))) =
        Max (score ` set (reference_samples m))"
    if "reference_samples m \<noteq> []" "\<forall>c\<in>set (reference_samples m). 0 \<le> score c"
    using that by (intro Max_floor) auto
  ultimately show ?thesis
    using pr unfolding response_str_def
    by (simp add: append_messages_eq del: Max_insert Max_le_iff Max_less_iff)
qed

text \<open>Claim C2 on the end-to-end scenario, with the threshold \<open>7 / 10\<close>. Against a corpus
  of one unrelated entry the maximum is \<open>1 / 5\<close> and the pair is emitted as two messages.
  Against a corpus whose second entry is the generated text itself the maximum is 1, reached
  at the second entry, and no message is emitted.\<close>

theorem process_mapper_emit_or_reject_witness:
  "findall1 raw1 \<noteq> [] \<and>
   process_mapper (\<lambda>m. Inr raw1) findall1 rouge1 (\<lambda>ea. dumps_plain) mapper1 =
     Inr [str ''text'' \<mapsto>
            dumps_plain (JObj [(str ''messages'',
              JArr [message ''user'' (JStr (str ''What is the capital of France?'')),
                    message ''assistant'' (JStr (str ''Paris''))])])] \<and>
   process_mapper (\<lambda>m. Inr raw1) findall1 rouge1 (\<lambda>ea. dumps_plain) mapper2 =
     Inr [str ''text'' \<mapsto> dumps_plain (JObj [(str ''messages'', JArr [])])]"
proof -
  let ?pairs = "[(str ''What is the capital of France?'', str ''Paris'')]"
  have h1: "(Inr raw1 :: error + pystr) = Inr raw1" by simp
  have h2: "findall1 raw1 \<noteq> []" by (simp add: findall1_def)
  have h3: "?pairs = map (\<lambda>(q, a). (strip q, strip a)) (findall1 raw1)"
    using strip_examples by (simp add: findall1_def)
  have gen: "concat (map (\<lambda>(q, a). q @ [10] @ a @ [10]) ?pairs) = generated1"
    by (simp add: generated1_def)
  have h4: "\<forall>c\<in>set (reference_samples mapper1).
      rouge1 c (concat (map (\<lambda>(q, a). q @ [10] @ a @ [10]) ?pairs)) = Inr (score1 c)"
    unfolding gen by (simp add: rouge1_def)
  have h5: "\<forall>c\<in>set (reference_samples mapper2).
      rouge1 c (concat (map (\<lambda>(q, a). q @ [10] @ a @ [10]) ?pairs)) = Inr (score1 c)"
    unfolding gen by (simp add: rouge1_def)
  have m1: "Max (insert 0 (score1 ` set (reference_samples mapper1))) = 1 / 5"
    by (simp add: mapper1_def score1_def generated1_def)
  have m2: "Max (insert 0 (score1 ` set (reference_samples mapper2))) = 1"
    by (simp add: mapper2_def score1_def generated1_def)
  have thr: "similarity_threshold mapper1 = 7 / 10" "text_key mapper1 = str ''text''"
    "similarity_threshold mapper2 = 7 / 10" "text_key mapper2 = str ''text''"
    by (simp_all add: mapper1_def mapper2_def)
  from process_mapper_emit_or_reject [where generate = "\<lambda>m. Inr raw1" and m = mapper1 and raw = raw1
      and findall = findall1 and pairs = ?pairs and rouge = rouge1 and score = score1
      and json_dumps = "\<lambda>ea. dumps_plain", OF h1 h2 h3 h4]
  have accept: "process_mapper (\<lambda>m. Inr raw1) findall1 rouge1 (\<lambda>ea. dumps_plain) mapper1 =
     Inr [str ''text'' \<mapsto>
            dumps_plain (JObj [(str ''messages'',
              JArr [message ''user'' (JStr (str ''What is the capital of France?'')),
                    message ''assistant'' (JStr (str ''Paris''))])])]"
    unfolding m1 thr by simp
  from process_mapper_emit_or_reject [where generate = "\<lambda>m. Inr raw1" and m = mapper2 and raw = raw1
      and findall = findall1 and pairs = ?pairs and rouge = rouge1 and score = score1
      and json_dumps = "\<lambda>ea. dumps_plain", OF h1 h2 h3 h5]
  have reject: "process_mapper (\<lambda>m. Inr raw1) findall1 rouge1 (\<lambda>ea. dumps_plain) mapper2 =
     Inr [str ''text'' \<mapsto> dumps_plain (JObj [(str ''messages'', JArr [])])]"
    unfolding m2 thr by simp
  from h2 accept reject show ?thesis by blast
qed

subsection \<open>Claim C8\<close>

text \<open>
  Claim C8. When the response gives no match, \<open>process\<close> returns, without calling the
  scorer, a sample whose text is the serialised object with an empty \<open>messages\<close> array.
  Every sample \<open>process\<close> returns, accepted, rejected or without a pair, has that shape:
  the text key bound to a serialised object with the one key \<open>messages\<close> holding an
  array.
\<close>

theorem process_mapper_no_pairs:
  assumes "generate m = Inr raw" and "findall raw = []"
  shows "process_mapper generate findall rouge json_dumps m =
       Inr [text_key m \<mapsto> json_dumps True (JObj [(str ''messages'', JArr [])])] \<and>
     (\<forall>g out. process_mapper g findall rouge json_dumps m = Inr out \<longrightarrow>
        (\<exists>ensure_ascii message_list.
           out = [text_key m \<mapsto>
                    json_dumps ensure_ascii (JObj [(str ''messages'', JArr message_list)])]))"
proof -
  from assms have "parse_response findall raw = ([], [])"
    by (simp add: parse_response_eq)
  with assms(1) have "process_mapper generate findall rouge json_dumps m =
       Inr [text_key m \<mapsto> json_dumps True (JObj [(str ''messages'', JArr [])])]"
    by (simp add: process_mapper_def)
  moreover have "\<exists>ensure_ascii message_list.
           out = [text_key m \<mapsto>
                    json_dumps ensure_ascii (JObj [(str ''messages'', JArr message_list)])]"
    if "process_mapper g findall rouge json_dumps m = Inr out" for g out
    using that
    by (auto simp: process_mapper_def split: sum.splits prod.splits if_splits)
  ultimately show ?thesis by blast
qed

text \<open>Claim C8 on a response without markers, with a scorer that would fail if it were
  called.\<close>

theorem process_mapper_no_pairs_witness:
  "findall1 (str ''no markers here'') = [] \<and>
   process_mapper (\<lambda>m. Inr (str ''no markers here'')) findall1 (\<lambda>c r. Inl ExternalFailure)
       (\<lambda>ea. dumps_plain) mapper1 =
     Inr [str ''text'' \<mapsto> dumps_plain (JObj [(str ''messages'', JArr [])])]"
proof -
  have h1: "(Inr (str ''no markers here'') :: error + pystr) = Inr (str ''no markers here'')"
    by simp
  have h2: "findall1 (str ''no markers here'') = []"
    by (simp add: findall1_def raw1_def)
  from process_mapper_no_pairs [where generate = "\<lambda>m. Inr (str ''no markers here'')"
      and m = mapper1 and raw = "str ''no markers here''" and findall = findall1
      and rouge = "\<lambda>c r. Inl ExternalFailure" and json_dumps = "\<lambda>ea. dumps_plain", OF h1 h2]
  have "process_mapper (\<lambda>m. Inr (str ''no markers here'')) findall1 (\<lambda>c r. Inl ExternalFailure)
       (\<lambda>ea. dumps_plain) mapper1 =
     Inr [text_key mapper1 \<mapsto> dumps_plain (JObj [(str ''messages'', JArr [])])]"
    by blast
  with h2 show ?thesis by (simp add: mapper1_def)
qed

end
